theory Spec2Isabelle
  imports Complex_Main
begin

section \<open>Numeric values and primitive operations\<close>

text \<open>
  The function \<^verbatim>\<open>wagner_pressure\<close> is MATLAB code. Every numeric MATLAB value may
  carry an imaginary part (the square root of a negative number is a complex number, not
  an error), so the values of the model are of type \<^typ>\<open>complex\<close>, and a real input
  \<open>x\<close> is the value \<open>complex_of_real x\<close>. The arithmetic is exact: rounding, overflow
  and the non-finite doubles \<^verbatim>\<open>Inf\<close> and \<^verbatim>\<open>NaN\<close> are outside the model. Where
  MATLAB would produce a non-finite value (a division by zero, \<^verbatim>\<open>log(0)\<close>) the model
  has the value HOL gives (\<open>x / 0 = 0\<close>, \<open>ln 0 = 0\<close>).
\<close>

text \<open>\<^verbatim>\<open>sqrt\<close>: the principal square root, imaginary on the negative reals.\<close>

definition m_sqrt :: "complex \<Rightarrow> complex" where
  "m_sqrt z = csqrt z"

text \<open>\<^verbatim>\<open>log\<close>: the principal natural logarithm, \<open>ln |z| + i arg z\<close> with
  \<open>- pi < arg z \<le> pi\<close>.\<close>

definition m_log :: "complex \<Rightarrow> complex" where
  "m_log z = Complex (ln (cmod z)) (Arg z)"

text \<open>\<^verbatim>\<open>z ^ w\<close> and \<^verbatim>\<open>z .^ w\<close> for an exponent that is not an integer:
  \<open>exp (w * log z)\<close>, and \<open>0\<close> at \<open>z = 0\<close> (the only exponent of this kind in the
  code is \<open>3/2\<close>). Integer powers are written with HOL's \<open>^\<close>.\<close>

definition m_power :: "complex \<Rightarrow> complex \<Rightarrow> complex" where
  "m_power z w = (if z = 0 then 0 else exp (w * m_log z))"

text \<open>\<^verbatim>\<open>real\<close>: the real part, as a value with imaginary part zero.\<close>

definition m_real :: "complex \<Rightarrow> complex" where
  "m_real z = complex_of_real (Re z)"

text \<open>\<^verbatim>\<open>x > 0\<close>: MATLAB's relational operators compare the real parts only.\<close>

definition m_gt0 :: "complex \<Rightarrow> bool" where
  "m_gt0 z = (0 < Re z)"

abbreviation m_pi :: complex where
  "m_pi \<equiv> complex_of_real pi"

section \<open>Turnover point and jet thickness\<close>

text \<open>
  \<^verbatim>\<open>d = sqrt(3 * (t - s));\<close>
  \<^verbatim>\<open>ddot = (sqrt(3)/2) * (1 - sdot) ./ sqrt(t - s);\<close>
  \<^verbatim>\<open>dddot = - (sqrt(3)/4) * ((1 - sdot).^2 + 2 * (t - s) .* sddot) ./ (t - s).^(3/2);\<close>
  \<^verbatim>\<open>J = 2 * (t - s).^(3/2) / (sqrt(3) * pi);\<close>
\<close>

definition wagner_d :: "complex \<Rightarrow> complex \<Rightarrow> complex" where
  "wagner_d t s = m_sqrt (3 * (t - s))"

definition wagner_ddot :: "complex \<Rightarrow> complex \<Rightarrow> complex \<Rightarrow> complex" where
  "wagner_ddot t s sdot = (m_sqrt 3 / 2) * (1 - sdot) / m_sqrt (t - s)"

definition wagner_dddot :: "complex \<Rightarrow> complex \<Rightarrow> complex \<Rightarrow> complex \<Rightarrow> complex" where
  "wagner_dddot t s sdot sddot =
     - (m_sqrt 3 / 4) * ((1 - sdot)^2 + 2 * (t - s) * sddot) / m_power (t - s) (3 / 2)"

definition wagner_J :: "complex \<Rightarrow> complex \<Rightarrow> complex" where
  "wagner_J t s = 2 * m_power (t - s) (3 / 2) / (m_sqrt 3 * m_pi)"

section \<open>Outer, inner and overlap solutions\<close>

text \<open>
  The anonymous functions of the source capture \<open>eps\<close>, \<open>d\<close>, \<open>ddot\<close>, \<open>dddot\<close> and
  \<open>J\<close> from the workspace; here they are explicit parameters. Their second argument
  \<open>t\<close> is not used by any of the bodies and is left out. Each body uses elementwise
  operators only, so applying it to a vector is \<^const>\<open>map\<close> of the scalar function.

  \<^verbatim>\<open>outer_p = @(rhat, t) (1/eps) * (4 * (2 * d^2 - rhat.^2) * ddot^2 ./ (3 * pi * sqrt(d^2 - rhat.^2)) + 4 * d * dddot * sqrt(d^2 - rhat.^2) / (3 * pi));\<close>
\<close>

definition outer_p :: "complex \<Rightarrow> complex \<Rightarrow> complex \<Rightarrow> complex \<Rightarrow> complex \<Rightarrow> complex" where
  "outer_p eps d ddot dddot rhat =
     (1 / eps) * (4 * (2 * d^2 - rhat^2) * ddot^2 / (3 * m_pi * m_sqrt (d^2 - rhat^2))
                  + 4 * d * dddot * m_sqrt (d^2 - rhat^2) / (3 * m_pi))"

text \<open>
  \<^verbatim>\<open>tilde_r = @(sigma, t) - (J/pi) * (sigma + 4 * sqrt(sigma) + log(sigma) + 1);\<close>
  \<^verbatim>\<open>inner_r = @(sigma, t) eps * d + eps^3 * tilde_r(sigma, t);\<close>
  \<^verbatim>\<open>inner_p = @(sigma, t) (1 / eps^2) * 2 * ddot^2 * sqrt(sigma) ./ (1 + sqrt(sigma)).^2;\<close>
\<close>

definition tilde_r :: "complex \<Rightarrow> complex \<Rightarrow> complex" where
  "tilde_r J sigma = - (J / m_pi) * (sigma + 4 * m_sqrt sigma + m_log sigma + 1)"

definition inner_r :: "complex \<Rightarrow> complex \<Rightarrow> complex \<Rightarrow> complex \<Rightarrow> complex" where
  "inner_r eps d J sigma = eps * d + eps^3 * tilde_r J sigma"

definition inner_p :: "complex \<Rightarrow> complex \<Rightarrow> complex \<Rightarrow> complex" where
  "inner_p eps ddot sigma = (1 / eps^2) * 2 * ddot^2 * m_sqrt sigma / (1 + m_sqrt sigma)^2"

text \<open>
  \<^verbatim>\<open>overlap = @(r, t) 2 * sqrt(2) * d^(3/2) * ddot^2 ./ (3 * pi * eps^2 * sqrt(d / eps^2 - r / eps^3));\<close>
\<close>

definition overlap :: "complex \<Rightarrow> complex \<Rightarrow> complex \<Rightarrow> complex \<Rightarrow> complex" where
  "overlap eps d ddot r =
     2 * m_sqrt 2 * m_power d (3 / 2) * ddot^2
       / (3 * m_pi * eps^2 * m_sqrt (d / eps^2 - r / eps^3))"

section \<open>Vectors, indexing and errors\<close>

text \<open>
  A MATLAB vector is a list. The run-time errors the vector operations of the source can
  raise are values of \<open>error\<close>: an index outside \<open>1 .. length\<close>, and an elementwise
  operation on vectors of incompatible sizes.
\<close>

datatype error = BadSubscript | SizeMismatch

text \<open>\<^verbatim>\<open>find(b)\<close>: the indices, counted from 1 and in increasing order, at which the
  logical vector is true.\<close>

definition m_find :: "bool list \<Rightarrow> nat list" where
  "m_find bs = filter (\<lambda>i. bs ! (i - 1)) [1 ..< Suc (length bs)]"

text \<open>\<^verbatim>\<open>xs(idxs)\<close>: the elements at the given indices, in the order of the indices;
  an index that is \<open>0\<close> or beyond the end is an error.\<close>

definition m_index :: "'a list \<Rightarrow> nat list \<Rightarrow> error + 'a list" where
  "m_index xs idxs =
     (if list_all (\<lambda>i. 1 \<le> i \<and> i \<le> length xs) idxs
      then Inr (map (\<lambda>i. xs ! (i - 1)) idxs)
      else Inl BadSubscript)"

text \<open>Elementwise \<^verbatim>\<open>+\<close> and \<^verbatim>\<open>-\<close> of two vectors: the sizes must agree, or one
  operand must be a scalar (a vector of length one), which is then expanded.\<close>

definition m_elementwise ::
  "(complex \<Rightarrow> complex \<Rightarrow> complex) \<Rightarrow> complex list \<Rightarrow> complex list \<Rightarrow> error + complex list" where
  "m_elementwise f xs ys =
     (if length xs = length ys then Inr (map2 f xs ys)
      else if length xs = 1 then Inr (map (f (hd xs)) ys)
      else if length ys = 1 then Inr (map (\<lambda>x. f x (hd ys)) xs)
      else Inl SizeMismatch)"

definition m_plus :: "complex list \<Rightarrow> complex list \<Rightarrow> error + complex list" where
  "m_plus = m_elementwise (\<lambda>x y. x + y)"

definition m_minus :: "complex list \<Rightarrow> complex list \<Rightarrow> error + complex list" where
  "m_minus = m_elementwise (\<lambda>x y. x - y)"

definition is_error :: "error + 'a \<Rightarrow> bool" where
  "is_error r = (case r of Inl _ \<Rightarrow> True | Inr _ \<Rightarrow> False)"

section \<open>The root finder\<close>

text \<open>
  \<^verbatim>\<open>fsolve\<close> belongs to MATLAB's Optimization Toolbox, not to this repository, so the
  model takes it as a parameter: a solver receives the function and the starting point and
  returns the point it stopped at together with its exit flag (positive when it converged,
  \<open>0\<close> when it ran out of iterations, negative when it failed). The source asks for the
  first output only.
\<close>

record solution =
  sol_x :: complex
  sol_exitflag :: int

type_synonym solver = "(complex \<Rightarrow> complex) \<Rightarrow> complex \<Rightarrow> solution"

text \<open>
  \<^verbatim>\<open>zero_fun = @(sigma) sigma + 4 * sqrt(sigma) + log(sigma) + 1;\<close>
  \<^verbatim>\<open>sigma_max = fsolve(zero_fun, 0.0233);\<close>
  \<open>wagner_sigma_max\<close> is the value of the local variable \<open>sigma_max\<close> in a call of
  \<open>wagner_pressure\<close> with the given arguments.
\<close>

definition zero_fun :: "complex \<Rightarrow> complex" where
  "zero_fun sigma = sigma + 4 * m_sqrt sigma + m_log sigma + 1"

definition wagner_sigma_max ::
  "solver \<Rightarrow> complex list \<Rightarrow> complex \<Rightarrow> complex \<Rightarrow> complex \<Rightarrow> complex \<Rightarrow> complex \<Rightarrow> complex" where
  "wagner_sigma_max fsolve sigmas t s sdot sddot eps = sol_x (fsolve zero_fun (233 / 10000))"

text \<open>Two solvers used as test doubles: one that gives up at once and hands back its
  starting point with exit flag \<open>0\<close>, and one that reports convergence to a given point.\<close>

definition stalled_solver :: solver where
  "stalled_solver f x0 = \<lparr>sol_x = x0, sol_exitflag = 0\<rparr>"

definition converged_solver :: "complex \<Rightarrow> solver" where
  "converged_solver x f x0 = \<lparr>sol_x = x, sol_exitflag = 1\<rparr>"

section \<open>The composite pressure\<close>

text \<open>
  \<^verbatim>\<open>function [rs, ps, pmax] = wagner_pressure(sigmas, t, s, sdot, sddot, eps)\<close>
  \<^verbatim>\<open>all_rs = inner_r(sigmas, t);\<close>
  \<^verbatim>\<open>pos_idxs = find(all_rs > 0);\<close>
  \<^verbatim>\<open>rs = all_rs(pos_idxs);\<close>
  \<^verbatim>\<open>sigmas = sigmas(pos_idxs);\<close>
  \<^verbatim>\<open>ps = real(inner_p(sigmas, t) + outer_p(rs/eps, t) - overlap(rs, t));\<close>
  \<^verbatim>\<open>pmax = real(inner_p(sigma_max, t) + outer_p(inner_r(sigma_max, t)/eps, t) - overlap(inner_r(sigma_max, t)/eps, t));\<close>
\<close>

definition wagner_pmax ::
  "solver \<Rightarrow> complex list \<Rightarrow> complex \<Rightarrow> complex \<Rightarrow> complex \<Rightarrow> complex \<Rightarrow> complex \<Rightarrow> complex" where
  "wagner_pmax fsolve sigmas t s sdot sddot eps =
     (let d = wagner_d t s;
          ddot = wagner_ddot t s sdot;
          dddot = wagner_dddot t s sdot sddot;
          J = wagner_J t s;
          sigma_max = wagner_sigma_max fsolve sigmas t s sdot sddot eps
      in m_real (inner_p eps ddot sigma_max
                 + outer_p eps d ddot dddot (inner_r eps d J sigma_max / eps)
                 - overlap eps d ddot (inner_r eps d J sigma_max / eps)))"

definition wagner_pressure ::
  "solver \<Rightarrow> complex list \<Rightarrow> complex \<Rightarrow> complex \<Rightarrow> complex \<Rightarrow> complex \<Rightarrow> complex
     \<Rightarrow> error + (complex list \<times> complex list \<times> complex)" where
  "wagner_pressure fsolve sigmas t s sdot sddot eps =
     (let d = wagner_d t s;
          ddot = wagner_ddot t s sdot;
          dddot = wagner_dddot t s sdot sddot;
          J = wagner_J t s;
          all_rs = map (inner_r eps d J) sigmas;
          pos_idxs = m_find (map m_gt0 all_rs)
      in case m_index all_rs pos_idxs of Inl e \<Rightarrow> Inl e | Inr rs \<Rightarrow>
         (case m_index sigmas pos_idxs of Inl e \<Rightarrow> Inl e | Inr sigmas' \<Rightarrow>
         (case m_plus (map (inner_p eps ddot) sigmas')
                      (map (outer_p eps d ddot dddot) (map (\<lambda>r. r / eps) rs)) of
            Inl e \<Rightarrow> Inl e
          | Inr io \<Rightarrow>
         (case m_minus io (map (overlap eps d ddot) rs) of
            Inl e \<Rightarrow> Inl e
          | Inr iov \<Rightarrow>
              Inr (rs, map m_real iov, wagner_pmax fsolve sigmas t s sdot sddot eps)))))"

section \<open>The composite pressure as the specification words it\<close>

text \<open>
  The specification's composite pressure of one sample: with \<open>r = inner_r(sigma)\<close>,
  \<open>p = Re[ inner_p(sigma) + outer_p(r/eps) - overlap(r) ]\<close>.
\<close>

definition composite_spec ::
  "complex \<Rightarrow> complex \<Rightarrow> complex \<Rightarrow> complex \<Rightarrow> complex \<Rightarrow> complex \<Rightarrow> complex" where
  "composite_spec eps d ddot dddot J sigma =
     (let r = inner_r eps d J sigma
      in m_real (inner_p eps ddot sigma + outer_p eps d ddot dddot (r / eps)
                 - overlap eps d ddot r))"

text \<open>The same at the turnover state of the time sample \<open>(t, s, sdot, sddot)\<close>.\<close>

definition composite_at ::
  "complex \<Rightarrow> complex \<Rightarrow> complex \<Rightarrow> complex \<Rightarrow> complex \<Rightarrow> complex \<Rightarrow> complex" where
  "composite_at t s sdot sddot eps sigma =
     composite_spec eps (wagner_d t s) (wagner_ddot t s sdot) (wagner_dddot t s sdot sddot)
       (wagner_J t s) sigma"

text \<open>The radius of one sample at that turnover state.\<close>

definition radius_at :: "complex \<Rightarrow> complex \<Rightarrow> complex \<Rightarrow> complex \<Rightarrow> complex" where
  "radius_at t s eps sigma = inner_r eps (wagner_d t s) (wagner_J t s) sigma"

section \<open>Primitive operations on the real axis\<close>

lemma m_sqrt_of_real_nonneg:
  "0 \<le> x \<Longrightarrow> m_sqrt (complex_of_real x) = complex_of_real (sqrt x)"
  by (simp add: m_sqrt_def)

lemma m_sqrt_of_real_neg:
  "x < 0 \<Longrightarrow> m_sqrt (complex_of_real x) = \<i> * complex_of_real (sqrt (- x))"
  by (simp add: m_sqrt_def)

lemma m_sqrt_3: "m_sqrt 3 = complex_of_real (sqrt 3)"
  using m_sqrt_of_real_nonneg [of 3] by simp

lemma Arg_of_real_pos: "0 < x \<Longrightarrow> Arg (complex_of_real x) = 0"
  by (rule cis_Arg_unique) (simp_all add: sgn_eq)

lemma m_log_of_real_pos:
  "0 < x \<Longrightarrow> m_log (complex_of_real x) = complex_of_real (ln x)"
  by (simp add: m_log_def Arg_of_real_pos complex_eq_iff)

lemma m_log_0: "m_log 0 = complex_of_real (ln 0)"
  by (simp add: m_log_def Arg_zero complex_eq_iff)

lemma m_log_of_real_nonneg:
  "0 \<le> x \<Longrightarrow> m_log (complex_of_real x) = complex_of_real (ln x)"
  using m_log_of_real_pos [of x] m_log_0 by (cases "x = 0") simp_all

lemma m_power_of_real_pos:
  "0 < x \<Longrightarrow> m_power (complex_of_real x) (complex_of_real a) = complex_of_real (x powr a)"
proof -
  assume x: "0 < x"
  have "complex_of_real a * complex_of_real (ln x) = complex_of_real (a * ln x)"
    by simp
  then have "exp (complex_of_real a * m_log (complex_of_real x)) = complex_of_real (exp (a * ln x))"
    using x by (simp only: m_log_of_real_pos exp_of_real)
  then show ?thesis
    using x by (simp add: m_power_def powr_def)
qed

lemma m_power_three_halves:
  "0 < x \<Longrightarrow> m_power (complex_of_real x) (3 / 2) = complex_of_real (x powr (3 / 2))"
  using m_power_of_real_pos [of x "3 / 2"] by simp

section \<open>Indexing with the result of find\<close>

lemma map_index_upt: "map (\<lambda>i. xs ! (i - 1)) [1 ..< Suc (length xs)] = xs"
proof -
  have "[1 ..< Suc (length xs)] = map Suc [0 ..< length xs]"
    by (simp add: map_Suc_upt)
  then have "map (\<lambda>i. xs ! (i - 1)) [1 ..< Suc (length xs)] = map (\<lambda>i. xs ! i) [0 ..< length xs]"
    by (simp add: comp_def del: upt_Suc)
  then show ?thesis by (simp add: map_nth)
qed

lemma m_find_range: "list_all (\<lambda>i. 1 \<le> i \<and> i \<le> length bs) (m_find bs)"
  by (auto simp: m_find_def list_all_iff)

lemma m_find_sorted: "sorted_wrt (<) (m_find bs)"
  unfolding m_find_def by (rule sorted_wrt_filter) (simp del: upt_Suc)

lemma m_index_find: "m_index xs (m_find (map P xs)) = Inr (filter P xs)"
proof -
  let ?n = "length xs"
  have r: "list_all (\<lambda>i. 1 \<le> i \<and> i \<le> ?n) (m_find (map P xs))"
    using m_find_range [of "map P xs"] by simp
  have f: "m_find (map P xs) = filter (\<lambda>i. P (xs ! (i - 1))) [1 ..< Suc ?n]"
    unfolding m_find_def by (rule filter_cong) (auto simp del: upt_Suc)
  have "map (\<lambda>i. xs ! (i - 1)) (m_find (map P xs))
        = filter P (map (\<lambda>i. xs ! (i - 1)) [1 ..< Suc ?n])"
    by (simp only: f filter_map comp_def)
  also have "\<dots> = filter P xs" by (simp only: map_index_upt)
  finally show ?thesis using r by (simp add: m_index_def)
qed

lemma m_index_find_map:
  "m_index xs (m_find (map P (map f xs))) = Inr (filter (\<lambda>x. P (f x)) xs)"
  using m_index_find [of xs "\<lambda>x. P (f x)"] by (simp add: comp_def)

lemma m_elementwise_same_length:
  "length xs = length ys \<Longrightarrow> m_elementwise f xs ys = Inr (map2 f xs ys)"
  by (simp add: m_elementwise_def)

lemma map2_map_map: "map2 f (map g xs) (map h xs) = map (\<lambda>x. f (g x) (h x)) xs"
  by (induction xs) simp_all

lemma wagner_pressure_eq:
  "wagner_pressure fsolve sigmas t s sdot sddot eps =
     Inr (map (radius_at t s eps) (filter (\<lambda>sigma. m_gt0 (radius_at t s eps sigma)) sigmas),
          map (composite_at t s sdot sddot eps)
              (filter (\<lambda>sigma. m_gt0 (radius_at t s eps sigma)) sigmas),
          wagner_pmax fsolve sigmas t s sdot sddot eps)"
proof -
  let ?r = "radius_at t s eps"
  let ?kept = "filter (\<lambda>sigma. m_gt0 (?r sigma)) sigmas"
  have "m_index (map ?r sigmas) (m_find (map m_gt0 (map ?r sigmas)))
          = Inr (filter m_gt0 (map ?r sigmas))"
    by (rule m_index_find)
  then have rs: "m_index (map ?r sigmas) (m_find (map m_gt0 (map ?r sigmas))) = Inr (map ?r ?kept)"
    by (simp only: filter_map comp_def)
  have sg: "m_index sigmas (m_find (map m_gt0 (map ?r sigmas))) = Inr ?kept"
    by (rule m_index_find_map)
  show ?thesis
    unfolding wagner_pressure_def Let_def
    using rs sg
    apply (simp add: radius_at_def [abs_def] m_plus_def m_minus_def m_elementwise_same_length map2_map_map)
    apply (simp add: composite_at_def composite_spec_def radius_at_def Let_def)
    done
qed

section \<open>The kinematics and the inner solution on real inputs\<close>

lemma wagner_d_real:
  assumes "s < t"
  shows "wagner_d (complex_of_real t) (complex_of_real s) = complex_of_real (sqrt (3 * (t - s)))"
proof -
  have "3 * (complex_of_real t - complex_of_real s) = complex_of_real (3 * (t - s))"
    by simp
  then show ?thesis
    using assms by (simp only: wagner_d_def) (simp add: m_sqrt_of_real_nonneg del: of_real_mult of_real_diff)
qed

lemma m_sqrt_diff:
  "s \<le> t \<Longrightarrow> m_sqrt (complex_of_real t - complex_of_real s) = complex_of_real (sqrt (t - s))"
  using m_sqrt_of_real_nonneg [of "t - s"] by simp

lemma m_power_diff:
  "s < t \<Longrightarrow> m_power (complex_of_real t - complex_of_real s) (3 / 2)
     = complex_of_real ((t - s) powr (3 / 2))"
  using m_power_three_halves [of "t - s"] by simp

lemma wagner_ddot_real:
  assumes "s < t"
  shows "wagner_ddot (complex_of_real t) (complex_of_real s) (complex_of_real sdot)
         = complex_of_real ((sqrt 3 / 2) * (1 - sdot) / sqrt (t - s))"
  using assms by (simp add: wagner_ddot_def m_sqrt_diff m_sqrt_3)

lemma wagner_dddot_real:
  assumes "s < t"
  shows "wagner_dddot (complex_of_real t) (complex_of_real s) (complex_of_real sdot)
           (complex_of_real sddot)
         = complex_of_real (- (sqrt 3 / 4) * ((1 - sdot)^2 + 2 * (t - s) * sddot)
                            / (t - s) powr (3 / 2))"
  using assms by (simp add: wagner_dddot_def m_power_diff m_sqrt_3)

lemma wagner_J_real:
  assumes "s < t"
  shows "wagner_J (complex_of_real t) (complex_of_real s)
         = complex_of_real (2 * (t - s) powr (3 / 2) / (sqrt 3 * pi))"
  using assms by (simp add: wagner_J_def m_power_diff m_sqrt_3)

lemma tilde_r_real:
  assumes "0 \<le> sigma"
  shows "tilde_r (complex_of_real J) (complex_of_real sigma)
         = complex_of_real (- (J / pi) * (sigma + 4 * sqrt sigma + ln sigma + 1))"
  using assms by (simp add: tilde_r_def m_sqrt_of_real_nonneg m_log_of_real_nonneg)

lemma inner_r_real:
  assumes "0 \<le> sigma"
  shows "inner_r (complex_of_real eps) (complex_of_real d) (complex_of_real J) (complex_of_real sigma)
         = complex_of_real (eps * d + eps^3 * (- (J / pi) * (sigma + 4 * sqrt sigma + ln sigma + 1)))"
  using assms by (simp add: inner_r_def tilde_r_real)

lemma inner_p_real:
  assumes "0 \<le> sigma"
  shows "inner_p (complex_of_real eps) (complex_of_real ddot) (complex_of_real sigma)
         = complex_of_real ((1 / eps^2) * 2 * ddot^2 * sqrt sigma / (1 + sqrt sigma)^2)"
  using assms by (simp add: inner_p_def m_sqrt_of_real_nonneg)

section \<open>Turnover-point kinematics\<close>

lemma three_powr_three_halves: "(3::real) powr (3 / 2) = 3 * sqrt 3"
proof -
  have "(3::real) powr (3 / 2) = 3 powr (1 + 1 / 2)" by simp
  also have "\<dots> = 3 powr 1 * 3 powr (1 / 2)" by (simp only: powr_add)
  also have "\<dots> = 3 * sqrt 3" by (simp add: powr_half_sqrt)
  finally show ?thesis .
qed

text \<open>
  C2. For every \<open>(t, s, sdot, sddot)\<close> with \<open>t - s > 0\<close> the turnover-point kinematics
  returns \<open>d = sqrt (3 (t - s))\<close>, so that \<open>d^2 = 3 (t - s)\<close>,
  \<open>ddot = (sqrt 3 / 2) (1 - sdot) / sqrt (t - s)\<close> and
  \<open>dddot = - (sqrt 3 / 4) [(1 - sdot)^2 + 2 (t - s) sddot] / (t - s)^(3/2)\<close>: the three
  values are real and are functions of the inputs alone.
\<close>

theorem turnover_kinematics_closed_form:
  fixes t s sdot sddot :: real
  assumes "0 < t - s"
  shows "wagner_d (complex_of_real t) (complex_of_real s) = complex_of_real (sqrt (3 * (t - s)))
       \<and> (wagner_d (complex_of_real t) (complex_of_real s))^2 = complex_of_real (3 * (t - s))
       \<and> wagner_ddot (complex_of_real t) (complex_of_real s) (complex_of_real sdot)
           = complex_of_real ((sqrt 3 / 2) * (1 - sdot) / sqrt (t - s))
       \<and> wagner_dddot (complex_of_real t) (complex_of_real s) (complex_of_real sdot)
             (complex_of_real sddot)
           = complex_of_real (- (sqrt 3 / 4) * ((1 - sdot)^2 + 2 * (t - s) * sddot)
                              / (t - s) powr (3 / 2))"
proof -
  from assms have st: "s < t" by simp
  have d: "wagner_d (complex_of_real t) (complex_of_real s) = complex_of_real (sqrt (3 * (t - s)))"
    using st by (rule wagner_d_real)
  have "(complex_of_real (sqrt (3 * (t - s))))^2 = complex_of_real ((sqrt (3 * (t - s)))^2)"
    by (simp only: of_real_power)
  also have "\<dots> = complex_of_real (3 * (t - s))"
    using st by simp
  finally have d2: "(wagner_d (complex_of_real t) (complex_of_real s))^2 = complex_of_real (3 * (t - s))"
    by (simp only: d)
  show ?thesis
    using d d2 wagner_ddot_real [OF st] wagner_dddot_real [OF st] by blast
qed

theorem turnover_kinematics_witness:
  "(0::real) < 4 - 1 \<and> wagner_d 4 1 = 3 \<and> (wagner_d 4 1)^2 = 9
   \<and> wagner_ddot 4 1 0 = 1 / 2 \<and> wagner_dddot 4 1 0 0 = - 1 / 12"
proof -
  have h: "(0::real) < 4 - 1" by simp
  note k = turnover_kinematics_closed_form [OF h, of 0 0]
  have s9: "sqrt 9 = 3"
    using real_sqrt_abs [of 3] by simp
  have s3: "sqrt 3 * sqrt 3 = 3" by simp
  have q: "sqrt 3 / (4 * (3 * sqrt 3)) = 1 / 12"
    using s3 by (simp add: field_simps)
  have "wagner_d 4 1 = complex_of_real (sqrt 9)"
    using k by simp
  then have d: "wagner_d 4 1 = 3" by (simp add: s9)
  have d2: "(wagner_d 4 1)^2 = 9"
    using k by simp
  have "wagner_ddot 4 1 0 = complex_of_real (sqrt 3 / 2 / sqrt 3)"
    using k by simp
  then have dd: "wagner_ddot 4 1 0 = 1 / 2" by simp
  have "wagner_dddot 4 1 0 0 = complex_of_real (- (sqrt 3 / 4) / (3 powr (3 / 2)))"
    using k by simp
  then have ddd: "wagner_dddot 4 1 0 0 = - 1 / 12"
    by (simp add: three_powr_three_halves q)
  show ?thesis using h d d2 dd ddd by blast
qed

section \<open>The inner solution\<close>

text \<open>
  C3. For every turnover state with \<open>t - s > 0\<close> and every \<open>sigma \<ge> 0\<close> (and every
  \<open>eps\<close>, positive or not), with \<open>J = 2 (t - s)^(3/2) / (sqrt 3 pi)\<close>:
  \<open>tilde_r(sigma) = - (J / pi) (sigma + 4 sqrt sigma + ln sigma + 1)\<close>,
  \<open>inner_r(sigma) = eps d + eps^3 tilde_r(sigma)\<close> and
  \<open>inner_p(sigma) = (1 / eps^2) 2 ddot^2 sqrt sigma / (1 + sqrt sigma)^2\<close>,
  where \<open>d\<close> and \<open>ddot\<close> are the values of the turnover-point kinematics.
\<close>

theorem inner_solution_closed_form:
  fixes t s sdot eps sigma J d ddot :: real
  assumes "0 < t - s" and "0 \<le> sigma"
    and "J = 2 * (t - s) powr (3 / 2) / (sqrt 3 * pi)"
    and "d = sqrt (3 * (t - s))"
    and "ddot = (sqrt 3 / 2) * (1 - sdot) / sqrt (t - s)"
  shows "wagner_J (complex_of_real t) (complex_of_real s) = complex_of_real J
       \<and> tilde_r (wagner_J (complex_of_real t) (complex_of_real s)) (complex_of_real sigma)
           = complex_of_real (- (J / pi) * (sigma + 4 * sqrt sigma + ln sigma + 1))
       \<and> inner_r (complex_of_real eps) (wagner_d (complex_of_real t) (complex_of_real s))
             (wagner_J (complex_of_real t) (complex_of_real s)) (complex_of_real sigma)
           = complex_of_real (eps * d
               + eps^3 * (- (J / pi) * (sigma + 4 * sqrt sigma + ln sigma + 1)))
       \<and> inner_p (complex_of_real eps)
             (wagner_ddot (complex_of_real t) (complex_of_real s) (complex_of_real sdot))
             (complex_of_real sigma)
           = complex_of_real ((1 / eps^2) * 2 * ddot^2 * sqrt sigma / (1 + sqrt sigma)^2)"
proof -
  from assms(1) have st: "s < t" by simp
  have J: "wagner_J (complex_of_real t) (complex_of_real s) = complex_of_real J"
    using wagner_J_real [OF st] assms(3) by simp
  have d: "wagner_d (complex_of_real t) (complex_of_real s) = complex_of_real d"
    using wagner_d_real [OF st] assms(4) by simp
  have dd: "wagner_ddot (complex_of_real t) (complex_of_real s) (complex_of_real sdot)
            = complex_of_real ddot"
    using wagner_ddot_real [OF st] assms(5) by simp
  show ?thesis
    unfolding J d dd
    using tilde_r_real [OF assms(2)] inner_r_real [OF assms(2)] inner_p_real [OF assms(2)]
    by blast
qed

theorem inner_solution_witness:
  "(0::real) < 4 - 1 \<and> (0::real) \<le> 1
   \<and> wagner_J 4 1 = complex_of_real (6 / pi)
   \<and> tilde_r (wagner_J 4 1) 1 = complex_of_real (- 36 / pi^2)
   \<and> inner_r 2 (wagner_d 4 1) (wagner_J 4 1) 1 = complex_of_real (6 - 288 / pi^2)
   \<and> inner_p 2 (wagner_ddot 4 1 0) 1 = 1 / 32"
proof -
  have h1: "(0::real) < 4 - 1" and h2: "(0::real) \<le> 1" by simp_all
  have s9: "sqrt 9 = 3"
    using real_sqrt_abs [of 3] by simp
  have hJ: "6 / pi = 2 * (4 - 1) powr (3 / 2) / (sqrt 3 * pi)"
    by (simp add: three_powr_three_halves)
  have hd: "(3::real) = sqrt (3 * (4 - 1))"
    by (simp add: s9)
  have hdd: "(1 / 2 :: real) = (sqrt 3 / 2) * (1 - 0) / sqrt (4 - 1)"
    by simp
  note k = inner_solution_closed_form [OF h1 h2 hJ hd hdd, of 2]
  note k1 = k [THEN conjunct1]
  note k2 = k [THEN conjunct2, THEN conjunct1]
  note k3 = k [THEN conjunct2, THEN conjunct2, THEN conjunct1]
  note k4 = k [THEN conjunct2, THEN conjunct2, THEN conjunct2]
  have J: "wagner_J 4 1 = complex_of_real (6 / pi)"
    using k1 by simp
  have "tilde_r (wagner_J 4 1) 1 = complex_of_real (- (6 / pi / pi) * 6)"
    using k2 by simp
  then have tr: "tilde_r (wagner_J 4 1) 1 = complex_of_real (- 36 / pi^2)"
    by (simp add: power2_eq_square)
  have "inner_r 2 (wagner_d 4 1) (wagner_J 4 1) 1
        = complex_of_real (2 * 3 + 2^3 * (- (6 / pi / pi) * 6))"
    using k3 by simp
  then have ir: "inner_r 2 (wagner_d 4 1) (wagner_J 4 1) 1 = complex_of_real (6 - 288 / pi^2)"
    by (simp add: power2_eq_square)
  have "inner_p 2 (wagner_ddot 4 1 0) 1 = complex_of_real (1 / 2^2 * 2 * (1 / 2)^2 * 1 / (1 + 1)^2)"
    using k4 by simp
  then have ip: "inner_p 2 (wagner_ddot 4 1 0) 1 = 1 / 32"
    by (simp add: power2_eq_square)
  show ?thesis using h1 h2 J tr ir ip by blast
qed

section \<open>The composite profile\<close>

lemma filter_by_find: "filter P xs = map (\<lambda>i. xs ! (i - 1)) (m_find (map P xs))"
proof -
  have "list_all (\<lambda>i. 1 \<le> i \<and> i \<le> length xs) (m_find (map P xs))"
    using m_find_range [of "map P xs"] by simp
  then have "m_index xs (m_find (map P xs)) = Inr (map (\<lambda>i. xs ! (i - 1)) (m_find (map P xs)))"
    by (simp add: m_index_def)
  then show ?thesis by (simp add: m_index_find)
qed

lemma radius_at_real:
  assumes "s < t" and "0 \<le> sigma"
  shows "radius_at (complex_of_real t) (complex_of_real s) (complex_of_real eps)
           (complex_of_real sigma)
         = complex_of_real (eps * sqrt (3 * (t - s))
             + eps^3 * (- (2 * (t - s) powr (3 / 2) / (sqrt 3 * pi) / pi)
                        * (sigma + 4 * sqrt sigma + ln sigma + 1)))"
  unfolding radius_at_def wagner_d_real [OF assms(1)] wagner_J_real [OF assms(1)]
  by (rule inner_r_real [OF assms(2)])

lemma radius_at_Im:
  assumes "s < t" and "0 \<le> sigma"
  shows "Im (radius_at (complex_of_real t) (complex_of_real s) (complex_of_real eps)
           (complex_of_real sigma)) = 0"
  by (simp only: radius_at_real [OF assms] Im_complex_of_real)

lemma zip_map_map: "zip (map f xs) (map g xs) = map (\<lambda>x. (f x, g x)) xs"
  by (induction xs) simp_all

lemma Im_m_real: "Im (m_real z) = 0"
  by (simp add: m_real_def)

subsection \<open>Signs of radii at the state \<open>t = 1\<close>, \<open>s = 0\<close>, \<open>eps = 1\<close>\<close>

lemma radius_at_unit_state:
  assumes "0 \<le> sigma"
  shows "radius_at 1 0 1 (complex_of_real sigma)
         = complex_of_real (sqrt 3 - 2 / (sqrt 3 * pi^2) * (sigma + 4 * sqrt sigma + ln sigma + 1))"
proof -
  have "radius_at (complex_of_real 1) (complex_of_real 0) (complex_of_real 1)
          (complex_of_real sigma)
        = complex_of_real (1 * sqrt (3 * (1 - 0))
            + 1^3 * (- (2 * (1 - 0) powr (3 / 2) / (sqrt 3 * pi) / pi)
                     * (sigma + 4 * sqrt sigma + ln sigma + 1)))"
    using assms by (intro radius_at_real) simp_all
  then show ?thesis by (simp add: power2_eq_square)
qed

lemma pi_squared_bounds: "4 \<le> pi^2" "pi^2 < 16"
proof -
  have "2 * 2 \<le> pi * pi"
    using pi_ge_two by (intro mult_mono) simp_all
  then show "4 \<le> pi^2" by (simp add: power2_eq_square)
  have "pi * pi < 4 * 4"
    using pi_less_4 pi_gt_zero by (intro mult_strict_mono) simp_all
  then show "pi^2 < 16" by (simp add: power2_eq_square)
qed

lemma radius_at_unit_state_pos:
  assumes "0 \<le> sigma" and "sigma + 4 * sqrt sigma + ln sigma + 1 < 6"
  shows "0 < Re (radius_at 1 0 1 (complex_of_real sigma))"
proof -
  let ?f = "sigma + 4 * sqrt sigma + ln sigma + 1"
  have s: "sqrt 3 * sqrt 3 = 3" by simp
  have "2 * ?f < 12"
    using assms(2) by simp
  also have "12 \<le> 3 * pi^2"
    using pi_squared_bounds(1) by simp
  finally have "2 * ?f < 3 * pi^2" .
  also have "\<dots> = sqrt 3 * (sqrt 3 * pi^2)"
    using s by (simp add: mult.assoc [symmetric])
  finally have "2 * ?f / (sqrt 3 * pi^2) < sqrt 3"
    by (simp add: pos_divide_less_eq mult.commute)
  then show ?thesis
    by (simp add: radius_at_unit_state [OF assms(1)])
qed

lemma radius_at_unit_state_nonpos:
  assumes "0 \<le> sigma" and "24 \<le> sigma + 4 * sqrt sigma + ln sigma + 1"
  shows "Re (radius_at 1 0 1 (complex_of_real sigma)) \<le> 0"
proof -
  let ?f = "sigma + 4 * sqrt sigma + ln sigma + 1"
  have s: "sqrt 3 * sqrt 3 = 3" by simp
  have "sqrt 3 * (sqrt 3 * pi^2) = 3 * pi^2"
    using s by (simp add: mult.assoc [symmetric])
  also have "\<dots> \<le> 48"
    using pi_squared_bounds(2) by simp
  also have "48 \<le> 2 * ?f"
    using assms(2) by simp
  finally have "sqrt 3 \<le> 2 * ?f / (sqrt 3 * pi^2)"
    by (simp add: pos_le_divide_eq mult.commute)
  then show ?thesis
    by (simp add: radius_at_unit_state [OF assms(1)])
qed

lemma radius_at_unit_state_quarter: "0 < Re (radius_at 1 0 1 (1 / 4))"
proof -
  have q: "sqrt (1 / 4) = 1 / 2"
    by (simp add: real_sqrt_divide)
  have "ln (1 / 4 :: real) < 0"
    by (rule ln_less_zero) simp_all
  then have "1 / 4 + 4 * (1 / 2) + ln (1 / 4) + 1 < (6::real)"
    by linarith
  then have "1 / 4 + 4 * sqrt (1 / 4) + ln (1 / 4) + 1 < (6::real)"
    by (simp only: q)
  then have "0 < Re (radius_at 1 0 1 (complex_of_real (1 / 4)))"
    by (intro radius_at_unit_state_pos) simp_all
  then show ?thesis by simp
qed

lemma radius_at_unit_state_hundred: "Re (radius_at 1 0 1 100) \<le> 0"
proof -
  have "0 \<le> sqrt 100" by simp
  moreover have "0 \<le> ln (100::real)" by simp
  ultimately have "24 \<le> 100 + 4 * sqrt 100 + ln 100 + (1::real)"
    by linarith
  then have "Re (radius_at 1 0 1 (complex_of_real 100)) \<le> 0"
    by (intro radius_at_unit_state_nonpos) simp_all
  then show ?thesis by simp
qed

lemma filter_unit_state_100_quarter:
  "filter (\<lambda>sigma. m_gt0 (radius_at 1 0 1 sigma)) [100, 1 / 4] = [1 / 4]"
  using radius_at_unit_state_quarter radius_at_unit_state_hundred
  by (simp add: m_gt0_def not_less)

lemma exp_two_le_nine: "exp (2::real) \<le> 9"
proof -
  have "exp (2::real) = exp 1 * exp 1"
    using exp_add [of "1::real" 1] by simp
  also have "\<dots> \<le> 3 * 3"
    using exp_le by (intro mult_mono) simp_all
  finally show ?thesis by simp
qed

lemma ln_hundredth: "ln (1 / 100 :: real) \<le> - 2"
proof -
  have "exp (2::real) \<le> 100"
    using exp_two_le_nine by simp
  then have "2 \<le> ln (100::real)"
    by (simp add: ln_ge_iff)
  moreover have "ln (1 / 100 :: real) = - ln 100"
    by (simp add: ln_div)
  ultimately show ?thesis by simp
qed

lemma zero_fun_terms_hundredth:
  "1 / 100 + 4 * sqrt (1 / 100) + ln (1 / 100) + 1 < (0::real)"
proof -
  have "sqrt 100 = 10"
    using real_sqrt_abs [of 10] by simp
  then have q: "sqrt (1 / 100) = 1 / 10"
    by (simp add: real_sqrt_divide)
  have "1 / 100 + 4 * (1 / 10) + ln (1 / 100) + 1 < (0::real)"
    using ln_hundredth by linarith
  then show ?thesis by (simp only: q)
qed

lemma radius_at_unit_state_hundredth:
  "\<exists>x. radius_at 1 0 1 (1 / 100) = complex_of_real x \<and> sqrt 3 < x"
proof -
  let ?f = "1 / 100 + 4 * sqrt (1 / 100) + ln (1 / 100) + (1::real)"
  have c: "complex_of_real (1 / 100) = 1 / 100" by simp
  have "radius_at 1 0 1 (complex_of_real (1 / 100))
        = complex_of_real (sqrt 3 - 2 / (sqrt 3 * pi^2) * ?f)"
    by (rule radius_at_unit_state) simp
  then have r: "radius_at 1 0 1 (1 / 100) = complex_of_real (sqrt 3 - 2 / (sqrt 3 * pi^2) * ?f)"
    by (simp only: c)
  have "0 < 2 / (sqrt 3 * pi^2)" by simp
  then have "2 / (sqrt 3 * pi^2) * ?f < 0"
    using zero_fun_terms_hundredth by (rule mult_pos_neg)
  then have "sqrt 3 < sqrt 3 - 2 / (sqrt 3 * pi^2) * ?f" by simp
  with r show ?thesis by blast
qed

lemma wagner_d_unit_state: "wagner_d 1 0 = complex_of_real (sqrt 3)"
  using wagner_d_real [of 0 1] by simp

lemma outer_radicand_negative:
  "Re ((wagner_d 1 0)^2 - (radius_at 1 0 1 (1 / 100) / 1)^2) < 0"
proof -
  obtain x where x: "radius_at 1 0 1 (1 / 100) = complex_of_real x" and gt: "sqrt 3 < x"
    using radius_at_unit_state_hundredth by blast
  have "0 \<le> sqrt 3" by simp
  then have "sqrt 3 * sqrt 3 < x * x"
    using gt by (intro mult_strict_mono') simp_all
  then have "3 < x * x" by simp
  then show ?thesis
    by (simp add: x wagner_d_unit_state power2_eq_square)
qed

subsection \<open>Retained samples and their pressures\<close>

text \<open>
  C1. For a turnover state with \<open>t - s > 0\<close> and nonnegative samples, the evaluator
  computes \<open>r = inner_r(sigma)\<close> for every sample (a real number), discards exactly the
  samples with \<open>r \<le> 0\<close>, and for every retained sample returns the pressure
  \<open>p = Re[ inner_p(sigma) + outer_p(r/eps) - overlap(r) ]\<close>; the returned sequence of
  (radius, pressure) pairs holds radii strictly greater than \<open>0\<close> only.
\<close>

theorem composite_profile_filtered:
  fixes t s sdot sddot eps :: real and sigmas :: "real list"
  assumes "0 < t - s" and "\<forall>sigma \<in> set sigmas. 0 \<le> sigma"
  shows "\<exists>rs ps pmax.
     wagner_pressure fsolve (map complex_of_real sigmas) (complex_of_real t) (complex_of_real s)
       (complex_of_real sdot) (complex_of_real sddot) (complex_of_real eps) = Inr (rs, ps, pmax)
   \<and> length rs = length ps
   \<and> zip rs ps =
       map (\<lambda>sigma.
             (radius_at (complex_of_real t) (complex_of_real s) (complex_of_real eps) sigma,
              composite_at (complex_of_real t) (complex_of_real s) (complex_of_real sdot)
                (complex_of_real sddot) (complex_of_real eps) sigma))
         (filter (\<lambda>sigma. \<not> Re (radius_at (complex_of_real t) (complex_of_real s)
                                  (complex_of_real eps) sigma) \<le> 0)
            (map complex_of_real sigmas))
   \<and> (\<forall>sigma \<in> set sigmas.
         Im (radius_at (complex_of_real t) (complex_of_real s) (complex_of_real eps)
               (complex_of_real sigma)) = 0)
   \<and> (\<forall>r \<in> set rs. Im r = 0 \<and> 0 < Re r)"
proof -
  let ?r = "radius_at (complex_of_real t) (complex_of_real s) (complex_of_real eps)"
  let ?p = "composite_at (complex_of_real t) (complex_of_real s) (complex_of_real sdot)
              (complex_of_real sddot) (complex_of_real eps)"
  let ?kept = "filter (\<lambda>sigma. m_gt0 (?r sigma)) (map complex_of_real sigmas)"
  from assms(1) have st: "s < t" by simp
  have k: "(\<lambda>sigma. \<not> Re (?r sigma) \<le> 0) = (\<lambda>sigma. m_gt0 (?r sigma))"
    by (simp add: m_gt0_def fun_eq_iff not_le)
  have im: "\<forall>sigma \<in> set sigmas. Im (?r (complex_of_real sigma)) = 0"
    using assms(2) radius_at_Im [OF st] by blast
  have pos: "\<forall>r \<in> set (map ?r ?kept). Im r = 0 \<and> 0 < Re r"
  proof
    fix r assume "r \<in> set (map ?r ?kept)"
    then obtain sigma where sg: "sigma \<in> set sigmas" "m_gt0 (?r (complex_of_real sigma))"
      and r: "r = ?r (complex_of_real sigma)"
      by auto
    from sg(1) im have "Im (?r (complex_of_real sigma)) = 0" by blast
    with sg(2) r show "Im r = 0 \<and> 0 < Re r" by (simp add: m_gt0_def)
  qed
  have e: "wagner_pressure fsolve (map complex_of_real sigmas) (complex_of_real t)
             (complex_of_real s) (complex_of_real sdot) (complex_of_real sddot)
             (complex_of_real eps)
           = Inr (map ?r ?kept, map ?p ?kept,
                  wagner_pmax fsolve (map complex_of_real sigmas) (complex_of_real t)
                    (complex_of_real s) (complex_of_real sdot) (complex_of_real sddot)
                    (complex_of_real eps))"
    by (rule wagner_pressure_eq)
  have len: "length (map ?r ?kept) = length (map ?p ?kept)" by simp
  have z: "zip (map ?r ?kept) (map ?p ?kept) = map (\<lambda>sigma. (?r sigma, ?p sigma)) ?kept"
    by (rule zip_map_map)
  show ?thesis
    unfolding k
    apply (rule exI [of _ "map ?r ?kept"])
    apply (rule exI [of _ "map ?p ?kept"])
    apply (rule exI)
    apply (intro conjI)
        apply (rule e)
       apply (rule len)
      apply (rule z)
     apply (rule im)
    apply (rule pos)
    done
qed

theorem composite_profile_witness:
  "(0::real) < 1 - 0 \<and> (0::real) \<le> 1 / 4 \<and> (0::real) \<le> 100
   \<and> 0 < Re (radius_at 1 0 1 (1 / 4)) \<and> Re (radius_at 1 0 1 100) \<le> 0
   \<and> (\<exists>pmax. wagner_pressure stalled_solver [1 / 4, 100] 1 0 0 0 1
                = Inr ([radius_at 1 0 1 (1 / 4)], [composite_at 1 0 0 0 1 (1 / 4)], pmax))"
proof -
  have h1: "(0::real) < 1 - 0" by simp
  have h2: "\<forall>sigma \<in> set [1 / 4, 100 :: real]. 0 \<le> sigma" by simp
  from composite_profile_filtered [OF h1 h2, of stalled_solver 0 0 1]
  obtain rs ps pmax where
    e: "wagner_pressure stalled_solver [1 / 4, 100] 1 0 0 0 1 = Inr (rs, ps, pmax)"
    and len: "length rs = length ps"
    and z: "zip rs ps = map (\<lambda>sigma. (radius_at 1 0 1 sigma, composite_at 1 0 0 0 1 sigma))
              (filter (\<lambda>sigma. \<not> Re (radius_at 1 0 1 sigma) \<le> 0) [1 / 4, 100])"
    by auto
  have z1: "zip rs ps = [(radius_at 1 0 1 (1 / 4), composite_at 1 0 0 0 1 (1 / 4))]"
    using z radius_at_unit_state_quarter radius_at_unit_state_hundred by simp
  have "map fst (zip rs ps) = rs" and "map snd (zip rs ps) = ps"
    using len by simp_all
  then have "rs = [radius_at 1 0 1 (1 / 4)]" and "ps = [composite_at 1 0 0 0 1 (1 / 4)]"
    by (simp_all add: z1)
  then show ?thesis
    using e h1 radius_at_unit_state_quarter radius_at_unit_state_hundred by simp
qed

text \<open>
  C9. The two output sequences \<open>rs\<close> and \<open>ps\<close> have the same length; there is a
  strictly increasing sequence of positions in the caller's sample vector, one for each
  output position, such that the radius and the pressure at output position \<open>k\<close> are
  both computed from the sample at the \<open>k\<close>-th of these positions. So the \<open>i\<close>-th
  pressure belongs to the sample of the \<open>i\<close>-th radius, and the retained samples keep
  their relative order.
\<close>

theorem profile_alignment:
  "\<exists>rs ps pmax idxs.
     wagner_pressure fsolve sigmas t s sdot sddot eps = Inr (rs, ps, pmax)
   \<and> length rs = length ps \<and> length idxs = length rs
   \<and> sorted_wrt (<) idxs
   \<and> (\<forall>k < length idxs.
         1 \<le> idxs ! k \<and> idxs ! k \<le> length sigmas
       \<and> rs ! k = radius_at t s eps (sigmas ! (idxs ! k - 1))
       \<and> ps ! k = composite_at t s sdot sddot eps (sigmas ! (idxs ! k - 1)))"
proof -
  let ?P = "\<lambda>sigma. m_gt0 (radius_at t s eps sigma)"
  let ?idxs = "m_find (map ?P sigmas)"
  let ?rs = "map (radius_at t s eps) (filter ?P sigmas)"
  let ?ps = "map (composite_at t s sdot sddot eps) (filter ?P sigmas)"
  have f: "filter ?P sigmas = map (\<lambda>i. sigmas ! (i - 1)) ?idxs"
    by (rule filter_by_find)
  have len: "length (filter ?P sigmas) = length ?idxs"
    by (subst f) simp
  have rng: "\<forall>k < length ?idxs. 1 \<le> ?idxs ! k \<and> ?idxs ! k \<le> length sigmas"
    using m_find_range [of "map ?P sigmas"] by (simp add: list_all_length)
  have nth: "\<forall>k < length ?idxs. filter ?P sigmas ! k = sigmas ! (?idxs ! k - 1)"
    by (subst f) simp
  have "wagner_pressure fsolve sigmas t s sdot sddot eps
          = Inr (?rs, ?ps, wagner_pmax fsolve sigmas t s sdot sddot eps)
      \<and> length ?rs = length ?ps \<and> length ?idxs = length ?rs
      \<and> sorted_wrt (<) ?idxs
      \<and> (\<forall>k < length ?idxs.
            1 \<le> ?idxs ! k \<and> ?idxs ! k \<le> length sigmas
          \<and> ?rs ! k = radius_at t s eps (sigmas ! (?idxs ! k - 1))
          \<and> ?ps ! k = composite_at t s sdot sddot eps (sigmas ! (?idxs ! k - 1)))"
    using wagner_pressure_eq [of fsolve sigmas t s sdot sddot eps] len rng nth m_find_sorted
    by simp
  then show ?thesis by blast
qed

theorem profile_alignment_witness:
  "\<exists>rs ps pmax idxs.
     wagner_pressure stalled_solver [100, 1 / 4] 1 0 0 0 1 = Inr (rs, ps, pmax)
   \<and> length rs = length ps \<and> length idxs = 1 \<and> idxs ! 0 = 2
   \<and> rs ! 0 = radius_at 1 0 1 ([100, 1 / 4] ! (idxs ! 0 - 1))
   \<and> ps ! 0 = composite_at 1 0 0 0 1 ([100, 1 / 4] ! (idxs ! 0 - 1))"
proof -
  from profile_alignment [of stalled_solver "[100, 1 / 4]" 1 0 0 0 1]
  obtain rs ps pmax idxs where
    e: "wagner_pressure stalled_solver [100, 1 / 4] 1 0 0 0 1 = Inr (rs, ps, pmax)"
    and len: "length rs = length ps" "length idxs = length rs"
    and al: "\<forall>k < length idxs.
         1 \<le> idxs ! k \<and> idxs ! k \<le> length [100, 1 / 4 :: complex]
       \<and> rs ! k = radius_at 1 0 1 ([100, 1 / 4] ! (idxs ! k - 1))
       \<and> ps ! k = composite_at 1 0 0 0 1 ([100, 1 / 4] ! (idxs ! k - 1))"
    by blast
  have "wagner_pressure stalled_solver [100, 1 / 4] 1 0 0 0 1
          = Inr (map (radius_at 1 0 1) [1 / 4], map (composite_at 1 0 0 0 1) [1 / 4],
                 wagner_pmax stalled_solver [100, 1 / 4] 1 0 0 0 1)"
    by (simp only: wagner_pressure_eq filter_unit_state_100_quarter)
  with e have rs: "rs = [radius_at 1 0 1 (1 / 4)]"
    by simp
  then have l1: "length idxs = 1" using len by simp
  then have a0: "1 \<le> idxs ! 0 \<and> idxs ! 0 \<le> 2
       \<and> rs ! 0 = radius_at 1 0 1 ([100, 1 / 4] ! (idxs ! 0 - 1))
       \<and> ps ! 0 = composite_at 1 0 0 0 1 ([100, 1 / 4] ! (idxs ! 0 - 1))"
    using al by simp
  have "idxs ! 0 \<noteq> 1"
  proof
    assume "idxs ! 0 = 1"
    then have "radius_at 1 0 1 (1 / 4) = radius_at 1 0 1 100"
      using a0 rs by simp
    then show False
      using radius_at_unit_state_quarter radius_at_unit_state_hundred by simp
  qed
  then have "idxs ! 0 = 2" using a0 by linarith
  then show ?thesis using e len(1) l1 a0 by blast
qed

text \<open>
  C10. The pressure evaluation is total: for every input (in particular for every turnover
  state with \<open>t - s > 0\<close> and every sample set) it returns a result and takes no error
  branch, and every returned pressure, in \<open>ps\<close> and \<open>pmax\<close>, has imaginary part zero.
  A sample whose outer radicand \<open>d^2 - (r/eps)^2\<close> is negative is evaluated like any
  other and its pressure is the real part of the complex sum.
\<close>

theorem evaluation_total_and_real:
  "\<exists>rs ps pmax.
     wagner_pressure fsolve sigmas t s sdot sddot eps = Inr (rs, ps, pmax)
   \<and> (\<forall>p \<in> set ps. Im p = 0) \<and> Im pmax = 0"
proof -
  have "\<forall>p \<in> set (map (composite_at t s sdot sddot eps)
                    (filter (\<lambda>sigma. m_gt0 (radius_at t s eps sigma)) sigmas)). Im p = 0"
    by (simp add: composite_at_def composite_spec_def Let_def Im_m_real)
  moreover have "Im (wagner_pmax fsolve sigmas t s sdot sddot eps) = 0"
    by (simp add: wagner_pmax_def Let_def Im_m_real)
  ultimately show ?thesis
    using wagner_pressure_eq [of fsolve sigmas t s sdot sddot eps] by blast
qed

theorem evaluation_total_and_real_witness:
  "\<exists>rs ps pmax.
     wagner_pressure stalled_solver [1 / 100] 1 0 0 0 1 = Inr (rs, ps, pmax)
   \<and> length ps = 1 \<and> (\<forall>p \<in> set ps. Im p = 0) \<and> Im pmax = 0
   \<and> Re ((wagner_d 1 0)^2 - (radius_at 1 0 1 (1 / 100) / 1)^2) < 0"
proof -
  from evaluation_total_and_real [of stalled_solver "[1 / 100]" 1 0 0 0 1]
  obtain rs ps pmax where
    e: "wagner_pressure stalled_solver [1 / 100] 1 0 0 0 1 = Inr (rs, ps, pmax)"
    and re: "\<forall>p \<in> set ps. Im p = 0" "Im pmax = 0"
    by blast
  obtain x where x: "radius_at 1 0 1 (1 / 100) = complex_of_real x" and gt: "sqrt 3 < x"
    using radius_at_unit_state_hundredth by blast
  have "0 \<le> sqrt 3" by simp
  with gt have "0 < x" by linarith
  then have "0 < Re (radius_at 1 0 1 (1 / 100))"
    by (simp add: x)
  then have "filter (\<lambda>sigma. m_gt0 (radius_at 1 0 1 sigma)) [1 / 100] = [1 / 100]"
    by (simp add: m_gt0_def)
  then have "wagner_pressure stalled_solver [1 / 100] 1 0 0 0 1
          = Inr (map (radius_at 1 0 1) [1 / 100], map (composite_at 1 0 0 0 1) [1 / 100],
                 wagner_pmax stalled_solver [1 / 100] 1 0 0 0 1)"
    by (simp only: wagner_pressure_eq)
  with e have "length ps = 1"
    by auto
  then show ?thesis
    using e re outer_radicand_negative by blast
qed

section \<open>Inputs outside the real domain of the square roots\<close>

lemma wagner_pressure_no_error:
  "\<not> is_error (wagner_pressure fsolve sigmas t s sdot sddot eps)"
  by (simp add: wagner_pressure_eq is_error_def)

lemma wagner_d_imaginary:
  assumes "t < s"
  shows "wagner_d (complex_of_real t) (complex_of_real s)
         = \<i> * complex_of_real (sqrt (3 * (s - t)))"
proof -
  have "3 * (complex_of_real t - complex_of_real s) = complex_of_real (3 * (t - s))"
    by simp
  moreover have "3 * (t - s) < 0" using assms by simp
  moreover have "- (3 * (t - s)) = 3 * (s - t)" by simp
  ultimately show ?thesis
    using m_sqrt_of_real_neg [of "3 * (t - s)"] by (simp only: wagner_d_def)
qed

text \<open>
  C5 (as the code has it). The evaluation never fails with a DomainError, since the code
  has no domain check: \<open>wagner_pressure\<close> returns a result for every input; for
  \<open>t - s < 0\<close> the kinematics returns the imaginary \<open>d = i sqrt (3 (s - t))\<close>; and a
  negative radicand \<open>x\<close> in the outer or overlap branch has the imaginary square root
  \<open>i sqrt (- x)\<close>.
\<close>

theorem no_domain_error:
  fixes t' s' x :: real
  shows "\<not> is_error (wagner_pressure fsolve sigmas t s sdot sddot eps)
       \<and> (t' - s' < 0 \<longrightarrow>
            wagner_d (complex_of_real t') (complex_of_real s')
              = \<i> * complex_of_real (sqrt (3 * (s' - t'))))
       \<and> (x < 0 \<longrightarrow> m_sqrt (complex_of_real x) = \<i> * complex_of_real (sqrt (- x)))"
  using wagner_pressure_no_error wagner_d_imaginary [of t' s'] m_sqrt_of_real_neg [of x]
  by simp

theorem no_domain_error_witness:
  "(0::real) - 1 < 0 \<and> (- 1 :: real) < 0
   \<and> \<not> is_error (wagner_pressure stalled_solver [1 / 4] 0 1 0 0 1)
   \<and> wagner_d 0 1 = \<i> * complex_of_real (sqrt 3)
   \<and> m_sqrt (- 1) = \<i>"
  using no_domain_error [of stalled_solver "[1 / 4]" 0 1 0 0 1 0 1 "- 1"]
  by simp

text \<open>
  The claim as stated fails: at \<open>t = 0\<close>, \<open>s = 1\<close> (so \<open>t - s \<le> 0\<close>) the evaluation
  returns a result, and so it does at \<open>t = 1\<close>, \<open>s = 0\<close>, \<open>eps = 1\<close> for the sample
  \<open>sigma = 1/100\<close>, whose outer radicand \<open>d^2 - (r/eps)^2\<close> is negative.
\<close>

theorem domain_error_counterexample:
  "\<not> is_error (wagner_pressure stalled_solver [1 / 4] 0 1 0 0 1)
   \<and> Re ((wagner_d 1 0)^2 - (radius_at 1 0 1 (1 / 100) / 1)^2) < 0
   \<and> \<not> is_error (wagner_pressure stalled_solver [1 / 100] 1 0 0 0 1)"
  using wagner_pressure_no_error outer_radicand_negative by blast

section \<open>The exit status of the root finder\<close>

lemma wagner_pmax_solver:
  "sol_x (F1 zero_fun (233 / 10000)) = sol_x (F2 zero_fun (233 / 10000)) \<Longrightarrow>
   wagner_pmax F1 sigmas t s sdot sddot eps = wagner_pmax F2 sigmas t s sdot sddot eps"
  by (simp add: wagner_pmax_def wagner_sigma_max_def)

text \<open>
  C6 (as the code has it). The evaluator takes the point the root finder returns as
  \<open>sigma_max\<close> and never looks at the exit status: it signals no ConvergenceError, and
  two solvers that return the same point, whatever their exit flags, give the same
  output.
\<close>

theorem solver_status_ignored:
  "sol_x (F1 zero_fun (233 / 10000)) = sol_x (F2 zero_fun (233 / 10000)) \<Longrightarrow>
   wagner_pressure F1 sigmas t s sdot sddot eps = wagner_pressure F2 sigmas t s sdot sddot eps
   \<and> \<not> is_error (wagner_pressure F1 sigmas t s sdot sddot eps)"
  using wagner_pmax_solver [of F1 F2 sigmas t s sdot sddot eps] wagner_pressure_no_error
  by (simp add: wagner_pressure_eq)

theorem solver_status_ignored_witness:
  "sol_x (stalled_solver zero_fun (233 / 10000))
     = sol_x (converged_solver (233 / 10000) zero_fun (233 / 10000))
   \<and> sol_exitflag (stalled_solver zero_fun (233 / 10000)) = 0
   \<and> sol_exitflag (converged_solver (233 / 10000) zero_fun (233 / 10000)) = 1
   \<and> wagner_pressure stalled_solver [1 / 4] 1 0 0 0 1
       = wagner_pressure (converged_solver (233 / 10000)) [1 / 4] 1 0 0 0 1"
proof -
  have h: "sol_x (stalled_solver zero_fun (233 / 10000))
           = sol_x (converged_solver (233 / 10000) zero_fun (233 / 10000))"
    by (simp add: stalled_solver_def converged_solver_def)
  show ?thesis
    using h solver_status_ignored
        [of stalled_solver "converged_solver (233 / 10000)" "[1 / 4]" 1 0 0 0 1, OF h]
    by (simp add: stalled_solver_def converged_solver_def)
qed

text \<open>
  The claim as stated fails: with a solver that stops without converging (exit flag
  \<open>0\<close>) and hands back the seed, the evaluator signals no error and uses the seed
  \<open>0.0233\<close> as \<open>sigma_max\<close>.
\<close>

theorem convergence_error_counterexample:
  "sol_exitflag (stalled_solver zero_fun (233 / 10000)) = 0
   \<and> \<not> is_error (wagner_pressure stalled_solver [1 / 4] 1 0 0 0 1)
   \<and> wagner_sigma_max stalled_solver [1 / 4] 1 0 0 0 1 = 233 / 10000"
  using wagner_pressure_no_error
  by (simp add: stalled_solver_def wagner_sigma_max_def)

section \<open>The root of the peak-pressure equation\<close>

lemma zero_fun_real:
  "0 \<le> sigma \<Longrightarrow>
   zero_fun (complex_of_real sigma) = complex_of_real (sigma + 4 * sqrt sigma + ln sigma + 1)"
  by (simp add: zero_fun_def m_sqrt_of_real_nonneg m_log_of_real_nonneg)

lemma Arg_of_real_neg: "x < 0 \<Longrightarrow> Arg (complex_of_real x) = pi"
  by (rule cis_Arg_unique) (simp_all add: sgn_eq)

lemma zero_fun_negative_axis:
  assumes "sigma < 0"
  shows "0 < Im (zero_fun (complex_of_real sigma))"
proof -
  have "Im (zero_fun (complex_of_real sigma)) = 4 * sqrt (- sigma) + pi"
    using assms by (simp add: zero_fun_def m_sqrt_of_real_neg m_log_def Arg_of_real_neg)
  moreover have "0 \<le> sqrt (- sigma)" using assms by simp
  ultimately show ?thesis using pi_gt_zero by linarith
qed

lemma sq_lower: "0 \<le> a \<Longrightarrow> a \<le> x \<Longrightarrow> b \<le> a * a \<Longrightarrow> b \<le> x^2" for a b x :: real
proof -
  assume a: "0 \<le> a" "a \<le> x" and b: "b \<le> a * a"
  have "a * a \<le> x * x" using a by (intro mult_mono) simp_all
  with b show ?thesis by (simp add: power2_eq_square)
qed

lemma sq_upper: "0 \<le> x \<Longrightarrow> x \<le> a \<Longrightarrow> a * a \<le> b \<Longrightarrow> x^2 \<le> b" for a b x :: real
proof -
  assume a: "0 \<le> x" "x \<le> a" and b: "a * a \<le> b"
  have "x * x \<le> a * a" using a by (intro mult_mono) simp_all
  with b show ?thesis by (simp add: power2_eq_square)
qed

lemma pow128: "x ^ 128 = ((((((x^2)^2)^2)^2)^2)^2)^2" for x :: real
  by (simp only: power_mult [symmetric]) simp

lemma pow32: "x ^ 32 = ((((x^2)^2)^2)^2)^2" for x :: real
  by (simp only: power_mult [symmetric]) simp

lemma power_128_lower: "(10::real) < (1 + (2364 / 1000) / of_nat 128) ^ 128"
proof -
  let ?x = "1 + (2364 / 1000) / of_nat 128 :: real"
  have x0: "10184 / 10000 \<le> ?x" by simp
  have x1: "10371 / 10000 \<le> ?x^2"
    by (rule sq_lower [OF _ x0]) simp_all
  have x2: "10755 / 10000 \<le> (?x^2)^2"
    by (rule sq_lower [OF _ x1]) simp_all
  have x3: "11567 / 10000 \<le> ((?x^2)^2)^2"
    by (rule sq_lower [OF _ x2]) simp_all
  have x4: "13379 / 10000 \<le> (((?x^2)^2)^2)^2"
    by (rule sq_lower [OF _ x3]) simp_all
  have x5: "17899 / 10000 \<le> ((((?x^2)^2)^2)^2)^2"
    by (rule sq_lower [OF _ x4]) simp_all
  have x6: "32037 / 10000 \<le> (((((?x^2)^2)^2)^2)^2)^2"
    by (rule sq_lower [OF _ x5]) simp_all
  have x7: "1001 / 100 \<le> ((((((?x^2)^2)^2)^2)^2)^2)^2"
    by (rule sq_lower [OF _ x6]) simp_all
  then have "1001 / 100 \<le> ?x ^ 128"
    by (simp only: pow128)
  then show ?thesis by simp
qed

lemma power_32_upper: "(1 + 229 / 3200 + (229 / 3200)^2) ^ 32 < (100 / 9 :: real)"
proof -
  let ?y = "1 + 229 / 3200 + (229 / 3200)^2 :: real"
  have p: "0 \<le> ?y" by simp
  have y0: "?y \<le> 107669 / 100000" by (simp add: power2_eq_square)
  have y1: "?y^2 \<le> 115927 / 100000"
    by (rule sq_upper [OF p y0]) simp
  have y2: "(?y^2)^2 \<le> 134391 / 100000"
    by (rule sq_upper [OF _ y1]) simp_all
  have y3: "((?y^2)^2)^2 \<le> 18061 / 10000"
    by (rule sq_upper [OF _ y2]) simp_all
  have y4: "(((?y^2)^2)^2)^2 \<le> 3262 / 1000"
    by (rule sq_upper [OF _ y3]) simp_all
  have y5: "((((?y^2)^2)^2)^2)^2 \<le> 1065 / 100"
    by (rule sq_upper [OF _ y4]) simp_all
  then have "?y ^ 32 \<le> 1065 / 100"
    by (simp only: pow32)
  then show ?thesis by simp
qed

lemma exp_upper_229: "exp (229 / 100 :: real) < 100 / 9"
proof -
  have "exp (229 / 3200 :: real) \<le> 1 + 229 / 3200 + (229 / 3200)^2"
    by (rule exp_bound) simp_all
  then have "exp (229 / 3200 :: real) ^ 32 \<le> (1 + 229 / 3200 + (229 / 3200)^2) ^ 32"
    by (intro power_mono) simp_all
  moreover have "exp (229 / 100 :: real) = exp (229 / 3200) ^ 32"
    using exp_of_nat_mult [of 32 "229 / 3200 :: real"] by simp
  moreover note power_32_upper
  ultimately show ?thesis by linarith
qed

lemma exp_lower_2364: "10 < exp (2364 / 1000 :: real)"
proof -
  have "(1 + (2364 / 1000) / of_nat 128) ^ 128 \<le> exp (2364 / 1000 :: real)"
    by (rule exp_ge_one_plus_x_over_n_power_n) simp_all
  moreover note power_128_lower
  ultimately show ?thesis by linarith
qed

lemma ln_upper_9_100: "ln (9 / 100 :: real) < - (229 / 100)"
proof -
  have "exp (229 / 100 :: real) < exp (ln (100 / 9))"
    using exp_upper_229 by simp
  then have "229 / 100 < ln (100 / 9 :: real)"
    by (simp only: exp_less_cancel_iff)
  moreover have "ln (9 / 100 :: real) = - ln (100 / 9)"
    by (simp add: ln_div)
  ultimately show ?thesis by simp
qed

lemma ln_lower_1_10: "- (2364 / 1000) < ln (1 / 10 :: real)"
proof -
  have "exp (ln 10) < exp (2364 / 1000 :: real)"
    using exp_lower_2364 by simp
  then have "ln 10 < (2364 / 1000 :: real)"
    by (simp only: exp_less_cancel_iff)
  moreover have "ln (1 / 10 :: real) = - ln 10"
    by (simp add: ln_div)
  ultimately show ?thesis by simp
qed

lemma zero_fun_terms_below:
  fixes sigma :: real
  assumes "0 < sigma" and "sigma \<le> 9 / 100"
  shows "sigma + 4 * sqrt sigma + ln sigma + 1 < 0"
proof -
  have "sigma \<le> (3 / 10)^2" using assms(2) by (simp add: power2_eq_square)
  then have q: "sqrt sigma \<le> 3 / 10"
    by (intro real_le_lsqrt) simp_all
  have "ln sigma \<le> ln (9 / 100)"
    using assms by simp
  then have l: "ln sigma < - (229 / 100)"
    using ln_upper_9_100 by linarith
  show ?thesis using assms(2) q l by linarith
qed

lemma zero_fun_terms_above:
  fixes sigma :: real
  assumes "1 / 10 \<le> sigma"
  shows "0 < sigma + 4 * sqrt sigma + ln sigma + 1"
proof -
  have "(316 / 1000)^2 \<le> sigma" using assms by (simp add: power2_eq_square)
  then have q: "316 / 1000 \<le> sqrt sigma"
    by (rule real_le_rsqrt)
  have "ln (1 / 10) \<le> ln sigma"
    using assms by simp
  then have l: "- (2364 / 1000) < ln sigma"
    using ln_lower_1_10 by linarith
  show ?thesis using assms q l by linarith
qed

lemma of_real_nonzero: "x \<noteq> 0 \<Longrightarrow> complex_of_real x \<noteq> 0"
  by simp

lemma zero_fun_nonzero_outside:
  fixes sigma :: real
  assumes "sigma \<le> 9 / 100 \<or> 1 / 10 \<le> sigma"
  shows "zero_fun (complex_of_real sigma) \<noteq> 0"
proof -
  consider "sigma < 0" | "sigma = 0" | "0 < sigma" "sigma \<le> 9 / 100" | "1 / 10 \<le> sigma"
    using assms by linarith
  then show ?thesis
  proof cases
    case 1
    then show ?thesis using zero_fun_negative_axis [of sigma] by auto
  next
    case 2
    then show ?thesis by (simp add: zero_fun_def m_sqrt_def m_log_def Arg_zero complex_eq_iff)
  next
    case 3
    then have n: "sigma + 4 * sqrt sigma + ln sigma + 1 \<noteq> 0"
      using zero_fun_terms_below [of sigma] by simp
    have e: "zero_fun (complex_of_real sigma)
             = complex_of_real (sigma + 4 * sqrt sigma + ln sigma + 1)"
      using 3 by (intro zero_fun_real) simp
    show ?thesis unfolding e using n by (rule of_real_nonzero)
  next
    case 4
    then have n: "sigma + 4 * sqrt sigma + ln sigma + 1 \<noteq> 0"
      using zero_fun_terms_above [of sigma] by simp
    have e: "zero_fun (complex_of_real sigma)
             = complex_of_real (sigma + 4 * sqrt sigma + ln sigma + 1)"
      using 4 by (intro zero_fun_real) simp
    show ?thesis unfolding e using n by (rule of_real_nonzero)
  qed
qed

lemma zero_fun_root_exists:
  "\<exists>sigma::real. 9 / 100 < sigma \<and> sigma < 1 / 10 \<and> zero_fun (complex_of_real sigma) = 0"
proof -
  let ?g = "\<lambda>x::real. x + 4 * sqrt x + ln x + 1"
  have a': "?g (9 / 100) < 0"
    by (rule zero_fun_terms_below) simp_all
  have b': "0 < ?g (1 / 10)"
    by (rule zero_fun_terms_above) simp
  have a: "?g (9 / 100) \<le> 0" using a' by (rule less_imp_le)
  have b: "0 \<le> ?g (1 / 10)" using b' by (rule less_imp_le)
  have c: "\<forall>x. 9 / 100 \<le> x \<and> x \<le> 1 / 10 \<longrightarrow> isCont ?g x"
  proof (intro allI impI)
    fix x :: real assume "9 / 100 \<le> x \<and> x \<le> 1 / 10"
    then have "x \<noteq> 0" by auto
    then show "isCont ?g x"
      by (intro continuous_intros) simp_all
  qed
  have "\<exists>x. 9 / 100 \<le> x \<and> x \<le> 1 / 10 \<and> ?g x = 0"
    using a b c by (intro IVT) simp_all
  then obtain x where x: "9 / 100 \<le> x" "x \<le> 1 / 10" "?g x = 0"
    by blast
  have "x \<noteq> 9 / 100"
    using a' x(3) by (metis less_irrefl)
  moreover have "x \<noteq> 1 / 10"
    using b' x(3) by (metis less_irrefl)
  moreover have "0 \<le> x" using x(1) by simp
  then have "zero_fun (complex_of_real x) = complex_of_real (?g x)"
    by (rule zero_fun_real)
  then have "zero_fun (complex_of_real x) = 0"
    by (simp only: x(3) of_real_0)
  ultimately have "9 / 100 < x \<and> x < 1 / 10 \<and> zero_fun (complex_of_real x) = 0"
    using x(1,2) by simp
  then show ?thesis by (rule exI)
qed


text \<open>
  C7 (as the code has it). The value of \<open>sigma_max\<close> is what the solver returns for the
  fixed function \<open>sigma + 4 sqrt sigma + ln sigma + 1\<close> from the fixed seed \<open>0.0233\<close>,
  so it is the same for any two calls, whatever their samples, time sample and \<open>eps\<close>.
  The seed is not the root: on the real axis the function has no zero outside the open
  interval from \<open>0.09\<close> to \<open>0.1\<close>, and it has one inside.
\<close>

theorem sigma_max_state_independent:
  fixes sigma :: real
  shows "wagner_sigma_max fsolve sigmas1 t1 s1 sdot1 sddot1 eps1
           = wagner_sigma_max fsolve sigmas2 t2 s2 sdot2 sddot2 eps2
       \<and> wagner_sigma_max fsolve sigmas1 t1 s1 sdot1 sddot1 eps1
           = sol_x (fsolve zero_fun (233 / 10000))
       \<and> (sigma \<le> 9 / 100 \<or> 1 / 10 \<le> sigma \<longrightarrow> zero_fun (complex_of_real sigma) \<noteq> 0)
       \<and> (\<exists>root::real. 9 / 100 < root \<and> root < 1 / 10
                         \<and> zero_fun (complex_of_real root) = 0)"
  using zero_fun_nonzero_outside [of sigma] zero_fun_root_exists
  by (simp add: wagner_sigma_max_def)

theorem sigma_max_state_independent_witness:
  "wagner_sigma_max (converged_solver (965 / 10000)) [1 / 4] 1 0 0 0 1
     = wagner_sigma_max (converged_solver (965 / 10000)) [100, 1] 4 1 0 0 2
   \<and> wagner_sigma_max (converged_solver (965 / 10000)) [1 / 4] 1 0 0 0 1 = 965 / 10000
   \<and> (233 / 10000 :: real) \<le> 9 / 100
   \<and> zero_fun (233 / 10000) \<noteq> 0"
  using sigma_max_state_independent
    [of "converged_solver (965 / 10000)" "[1 / 4]" 1 0 0 0 1 "[100, 1]" 4 1 0 0 2 "233 / 10000"]
  by (simp add: converged_solver_def wagner_sigma_max_def)

text \<open>
  The claim as stated fails in its parenthesis: no real number within \<open>10^-6\<close> of
  \<open>0.0233\<close> is a zero of the function.
\<close>

theorem root_near_seed_counterexample:
  "\<not> (\<exists>sigma::real. \<bar>sigma - 233 / 10000\<bar> \<le> 1 / 1000000
                      \<and> zero_fun (complex_of_real sigma) = 0)"
proof
  assume "\<exists>sigma::real. \<bar>sigma - 233 / 10000\<bar> \<le> 1 / 1000000
                      \<and> zero_fun (complex_of_real sigma) = 0"
  then obtain sigma :: real where
    n: "\<bar>sigma - 233 / 10000\<bar> \<le> 1 / 1000000" and z: "zero_fun (complex_of_real sigma) = 0"
    by blast
  from n have "sigma \<le> 9 / 100" by linarith
  then have "zero_fun (complex_of_real sigma) \<noteq> 0"
    by (intro zero_fun_nonzero_outside) simp
  with z show False by simp
qed

section \<open>The peak pressure\<close>

lemma wagner_pmax_unit_eps:
  "wagner_pmax fsolve sigmas t s sdot sddot 1
   = composite_at t s sdot sddot 1 (wagner_sigma_max fsolve sigmas t s sdot sddot 1)"
  by (simp add: wagner_pmax_def composite_at_def composite_spec_def Let_def)

lemma pmax_eq_composite_iff:
  "wagner_pmax fsolve sigmas t s sdot sddot eps
     = composite_at t s sdot sddot eps (wagner_sigma_max fsolve sigmas t s sdot sddot eps)
   \<longleftrightarrow>
   Re (overlap eps (wagner_d t s) (wagner_ddot t s sdot)
         (radius_at t s eps (wagner_sigma_max fsolve sigmas t s sdot sddot eps) / eps))
   = Re (overlap eps (wagner_d t s) (wagner_ddot t s sdot)
         (radius_at t s eps (wagner_sigma_max fsolve sigmas t s sdot sddot eps)))"
  by (auto simp add: wagner_pmax_def composite_at_def composite_spec_def Let_def m_real_def
      radius_at_def)

lemma Re_over_m_sqrt:
  "Re (complex_of_real n / (complex_of_real c * m_sqrt (complex_of_real a)))
   = (if 0 < a then n / (c * sqrt a) else 0)"
proof (cases "0 < a")
  case True
  then have "m_sqrt (complex_of_real a) = complex_of_real (sqrt a)"
    by (intro m_sqrt_of_real_nonneg) simp
  then have "complex_of_real n / (complex_of_real c * m_sqrt (complex_of_real a))
             = complex_of_real (n / (c * sqrt a))"
    by simp
  then show ?thesis using True by (simp only: Re_complex_of_real if_True)
next
  case False
  show ?thesis
  proof (cases "a = 0")
    case True
    then show ?thesis by (simp add: m_sqrt_def)
  next
    case nz: False
    with False have "a < 0" by simp
    then have "m_sqrt (complex_of_real a) = \<i> * complex_of_real (sqrt (- a))"
      by (rule m_sqrt_of_real_neg)
    then have "Re (complex_of_real n / (complex_of_real c * m_sqrt (complex_of_real a))) = 0"
      by (simp add: Re_divide)
    then show ?thesis using False by simp
  qed
qed

lemma overlap_real:
  assumes "0 < d"
  shows "overlap (complex_of_real eps) (complex_of_real d) (complex_of_real ddot)
           (complex_of_real x)
         = complex_of_real (2 * sqrt 2 * d powr (3 / 2) * ddot^2)
           / (complex_of_real (3 * pi * eps^2)
              * m_sqrt (complex_of_real (d / eps^2 - x / eps^3)))"
proof -
  have s2: "m_sqrt 2 = complex_of_real (sqrt 2)"
    using m_sqrt_of_real_nonneg [of 2] by simp
  have r: "complex_of_real d / (complex_of_real eps)^2 - complex_of_real x / (complex_of_real eps)^3
           = complex_of_real (d / eps^2 - x / eps^3)"
    by simp
  show ?thesis
    unfolding overlap_def r
    using assms by (simp add: s2 m_power_three_halves)
qed

lemma Re_overlap_real:
  assumes "0 < d"
  shows "Re (overlap (complex_of_real eps) (complex_of_real d) (complex_of_real ddot)
           (complex_of_real x))
         = (if 0 < d / eps^2 - x / eps^3
            then 2 * sqrt 2 * d powr (3 / 2) * ddot^2
                 / (3 * pi * eps^2 * sqrt (d / eps^2 - x / eps^3))
            else 0)"
  by (simp only: overlap_real [OF assms] Re_over_m_sqrt)

lemma zero_fun_terms_965:
  "- (3 / 2) < 965 / 10000 + 4 * sqrt (965 / 10000) + ln (965 / 10000) + (1::real)"
  "965 / 10000 + 4 * sqrt (965 / 10000) + ln (965 / 10000) + (1::real) < 3 / 2"
proof -
  have "(3 / 10)^2 \<le> (965 / 10000 :: real)" by (simp add: power2_eq_square)
  then have q1: "3 / 10 \<le> sqrt (965 / 10000)"
    by (rule real_le_rsqrt)
  have "(965 / 10000 :: real) \<le> (32 / 100)^2" by (simp add: power2_eq_square)
  then have q2: "sqrt (965 / 10000) \<le> 32 / 100"
    by (intro real_le_lsqrt) simp_all
  have l: "ln (965 / 10000 :: real) = - ln (10000 / 965)"
    by (simp add: ln_div)
  have "exp (2::real) \<le> 10000 / 965"
    using exp_two_le_nine by simp
  then have l1: "2 \<le> ln (10000 / 965 :: real)"
    by (simp add: ln_ge_iff)
  have "(1 + (37 / 10) / of_nat 4) ^ 4 \<le> exp (37 / 10 :: real)"
    by (rule exp_ge_one_plus_x_over_n_power_n) simp_all
  moreover have "(10000 / 965 :: real) < (1 + (37 / 10) / of_nat 4) ^ 4"
    by (simp add: power_divide)
  ultimately have "exp (ln (10000 / 965)) < exp (37 / 10 :: real)"
    by simp
  then have l2: "ln (10000 / 965 :: real) < 37 / 10"
    by (simp only: exp_less_cancel_iff)
  show "- (3 / 2) < 965 / 10000 + 4 * sqrt (965 / 10000) + ln (965 / 10000) + (1::real)"
    using q1 l l2 by linarith
  show "965 / 10000 + 4 * sqrt (965 / 10000) + ln (965 / 10000) + (1::real) < 3 / 2"
    using q2 l l1 by linarith
qed

lemma wagner_ddot_unit_state: "wagner_ddot 1 0 0 = complex_of_real (sqrt 3 / 2)"
  using wagner_ddot_real [of 0 1 0] by simp

lemma radius_at_eps_two:
  assumes "0 \<le> sigma"
  shows "radius_at 1 0 2 (complex_of_real sigma)
         = complex_of_real (2 * sqrt 3
             - 16 / (sqrt 3 * pi^2) * (sigma + 4 * sqrt sigma + ln sigma + 1))"
proof -
  have "radius_at (complex_of_real 1) (complex_of_real 0) (complex_of_real 2)
          (complex_of_real sigma)
        = complex_of_real (2 * sqrt (3 * (1 - 0))
            + 2^3 * (- (2 * (1 - 0) powr (3 / 2) / (sqrt 3 * pi) / pi)
                     * (sigma + 4 * sqrt sigma + ln sigma + 1)))"
    using assms by (intro radius_at_real) simp_all
  then show ?thesis by (simp add: power2_eq_square)
qed

lemma over_sqrt_differ:
  fixes n c a1 a2 :: real
  assumes "0 < n" and "0 < c" and "0 < a2" and "a1 < a2"
  shows "(if 0 < a1 then n / (c * sqrt a1) else 0) \<noteq> n / (c * sqrt a2)"
proof (cases "0 < a1")
  case True
  then have "sqrt a1 < sqrt a2" using assms(4) by simp
  moreover have "0 < sqrt a1" using True by simp
  ultimately have "c * sqrt a1 < c * sqrt a2" and "0 < c * sqrt a1"
    using assms(2) by simp_all
  then have "n / (c * sqrt a2) < n / (c * sqrt a1)"
    using assms(1,2,3) True by (intro divide_strict_left_mono mult_pos_pos) simp_all
  then have "n / (c * sqrt a1) \<noteq> n / (c * sqrt a2)"
    by (rule less_imp_neq [THEN not_sym])
  then show ?thesis using True by (simp only: if_True not_False_eq_True)
next
  case False
  have "0 < n / (c * sqrt a2)"
    using assms(1,2,3) by simp
  then have "0 \<noteq> n / (c * sqrt a2)"
    by (rule less_imp_neq)
  then show ?thesis using False by (simp only: if_False not_False_eq_True)
qed

lemma overlap_arguments_differ:
  fixes f :: real
  assumes "- (3 / 2) < f" and "f < 3 / 2"
  shows "Re (overlap 2 (complex_of_real (sqrt 3)) (complex_of_real (sqrt 3 / 2))
               (complex_of_real (2 * sqrt 3 - 16 / (sqrt 3 * pi^2) * f) / 2))
       \<noteq> Re (overlap 2 (complex_of_real (sqrt 3)) (complex_of_real (sqrt 3 / 2))
               (complex_of_real (2 * sqrt 3 - 16 / (sqrt 3 * pi^2) * f)))"
proof -
  let ?rho = "2 * sqrt 3 - 16 / (sqrt 3 * pi^2) * f"
  let ?n = "2 * sqrt 2 * sqrt 3 powr (3 / 2) * (sqrt 3 / 2)^2"
  let ?c = "3 * pi * 2^2"
  let ?a1 = "sqrt 3 / 2^2 - ?rho / 2^3"
  let ?a2 = "sqrt 3 / 2^2 - (?rho / 2) / 2^3"
  have d: "0 < sqrt 3" by simp
  have s3: "sqrt 3 * sqrt 3 = 3" by simp
  have n: "0 < ?n" by simp
  have c: "0 < ?c" by simp
  have q: "0 < sqrt 3 * pi^2" by simp
  have p12: "12 \<le> sqrt 3 * (sqrt 3 * pi^2)"
    using pi_squared_bounds(1) s3 by (simp add: mult.assoc [symmetric])
  have "(3 / 2) / (sqrt 3 * pi^2) \<le> sqrt 3 / 8"
    using p12 q by (simp add: field_simps)
  moreover have "- ((3 / 2) / (sqrt 3 * pi^2)) < f / (sqrt 3 * pi^2)"
    using assms(1) q by (simp add: field_simps)
  moreover have "f / (sqrt 3 * pi^2) < (3 / 2) / (sqrt 3 * pi^2)"
    using assms(2) q by (simp add: field_simps)
  ultimately have b: "- (sqrt 3 / 8) < f / (sqrt 3 * pi^2)" "f / (sqrt 3 * pi^2) < sqrt 3 / 8"
    by linarith+
  have a1: "?a1 = 2 * (f / (sqrt 3 * pi^2))"
    by (simp add: field_simps)
  have a2: "?a2 = sqrt 3 / 8 + f / (sqrt 3 * pi^2)"
    by (simp add: field_simps)
  have a2pos: "0 < ?a2" unfolding a2 using b(1) by linarith
  have lt: "?a1 < ?a2" unfolding a1 a2 using b(2) by linarith
  have half: "complex_of_real ?rho / 2 = complex_of_real (?rho / 2)" by simp
  have r2: "Re (overlap (complex_of_real 2) (complex_of_real (sqrt 3))
              (complex_of_real (sqrt 3 / 2)) (complex_of_real (?rho / 2)))
            = ?n / (?c * sqrt ?a2)"
    using a2pos by (simp only: Re_overlap_real [OF d] if_True)
  have r1: "Re (overlap (complex_of_real 2) (complex_of_real (sqrt 3))
              (complex_of_real (sqrt 3 / 2)) (complex_of_real ?rho))
            = (if 0 < ?a1 then ?n / (?c * sqrt ?a1) else 0)"
    by (simp only: Re_overlap_real [OF d])
  have ne: "(if 0 < ?a1 then ?n / (?c * sqrt ?a1) else 0) \<noteq> ?n / (?c * sqrt ?a2)"
    using n c a2pos lt by (rule over_sqrt_differ)
  have two: "complex_of_real 2 = 2" by simp
  show ?thesis
    using ne r1 r2 unfolding half two by simp
qed

text \<open>
  C4. The returned peak pressure should equal the composite pressure of the profile,
  \<open>Re[ inner_p(sigma_max) + outer_p(r/eps) - overlap(r) ]\<close> at \<open>r = inner_r(sigma_max)\<close>.
  The code evaluates the overlap term of \<open>pmax\<close> at \<open>r/eps\<close> instead of \<open>r\<close>. For
  \<open>eps = 1\<close> the two agree; at \<open>t = 1\<close>, \<open>s = sdot = sddot = 0\<close>, \<open>eps = 2\<close> and a solver
  result of \<open>0.0965\<close> they differ.
\<close>

theorem peak_pressure_overlap_argument:
  "wagner_pmax (converged_solver (965 / 10000)) [1 / 4] 1 0 0 0 1
     = composite_at 1 0 0 0 1
         (wagner_sigma_max (converged_solver (965 / 10000)) [1 / 4] 1 0 0 0 1)
   \<and> wagner_pmax (converged_solver (965 / 10000)) [1 / 4] 1 0 0 0 2
     \<noteq> composite_at 1 0 0 0 2
         (wagner_sigma_max (converged_solver (965 / 10000)) [1 / 4] 1 0 0 0 2)"
proof -
  let ?F = "converged_solver (965 / 10000)"
  have sm: "wagner_sigma_max ?F [1 / 4] 1 0 0 0 2 = complex_of_real (965 / 10000)"
    by (simp add: wagner_sigma_max_def converged_solver_def)
  have r: "radius_at 1 0 2 (complex_of_real (965 / 10000))
           = complex_of_real (2 * sqrt 3 - 16 / (sqrt 3 * pi^2)
               * (965 / 10000 + 4 * sqrt (965 / 10000) + ln (965 / 10000) + 1))"
    by (rule radius_at_eps_two) simp
  have "Re (overlap 2 (wagner_d 1 0) (wagner_ddot 1 0 0)
              (radius_at 1 0 2 (wagner_sigma_max ?F [1 / 4] 1 0 0 0 2) / 2))
        \<noteq> Re (overlap 2 (wagner_d 1 0) (wagner_ddot 1 0 0)
              (radius_at 1 0 2 (wagner_sigma_max ?F [1 / 4] 1 0 0 0 2)))"
    unfolding sm r wagner_d_unit_state wagner_ddot_unit_state
    by (rule overlap_arguments_differ [OF zero_fun_terms_965])
  then have "wagner_pmax ?F [1 / 4] 1 0 0 0 2
             \<noteq> composite_at 1 0 0 0 2 (wagner_sigma_max ?F [1 / 4] 1 0 0 0 2)"
    by (simp only: pmax_eq_composite_iff not_False_eq_True)
  then show ?thesis
    using wagner_pmax_unit_eps [of ?F "[1 / 4]" 1 0 0 0] by blast
qed

end
